theory Spec2Isabelle
  imports Main "HOL-Library.AList" "HOL-Library.Char_ord" "HOL-Library.List_Lexorder"
begin

section \<open>Values, dictionaries and the process\<close>

text \<open>
  The toolkit handles three kinds of Python data: the scalar values that a YAML manifest
  holds and that end up in the argument namespace, dictionaries keyed by strings, and the
  process state it reads (environment, command line, files). Values are the YAML scalars
  \<^verbatim>\<open>None\<close>, booleans, integers and strings; floats and nested collections are not part
  of the model. A dictionary is an association list with distinct keys, in insertion
  order (the order \<^verbatim>\<open>dict.items()\<close> follows).
\<close>

datatype pyval = VNone | VBool bool | VInt int | VStr string

type_synonym dict = "(string \<times> pyval) list"

text \<open>\<^verbatim>\<open>d.get(key, default)\<close>.\<close>

definition get :: "dict \<Rightarrow> string \<Rightarrow> pyval \<Rightarrow> pyval" where
  "get d k dflt = (case map_of d k of None \<Rightarrow> dflt | Some v \<Rightarrow> v)"

text \<open>Truth value of an object, as \<^verbatim>\<open>if x:\<close> and \<^verbatim>\<open>x or y\<close> test it.\<close>

fun truthy :: "pyval \<Rightarrow> bool" where
  "truthy VNone = False"
| "truthy (VBool b) = b"
| "truthy (VInt i) = (i \<noteq> 0)"
| "truthy (VStr s) = (s \<noteq> [])"

text \<open>\<^verbatim>\<open>str(x)\<close>, which \<^verbatim>\<open>%s\<close> and f-strings apply to the value they format.\<close>

definition digit_char :: "nat \<Rightarrow> char" where
  "digit_char d = char_of (48 + d)"

fun str_nat :: "nat \<Rightarrow> string" where
  "str_nat n = (if n < 10 then [digit_char n] else str_nat (n div 10) @ [digit_char (n mod 10)])"

definition str_int :: "int \<Rightarrow> string" where
  "str_int i = (if i < 0 then CHR ''-'' # str_nat (nat (- i)) else str_nat (nat i))"

fun str :: "pyval \<Rightarrow> string" where
  "str VNone = ''None''"
| "str (VBool b) = (if b then ''True'' else ''False'')"
| "str (VInt i) = str_int i"
| "str (VStr s) = s"

text \<open>
  \<^verbatim>\<open>s.upper()\<close> and \<^verbatim>\<open>s.replace(' ', '')\<close>. Characters are bytes; \<open>upper\<close> maps the ASCII
  letters and leaves every other character alone, which is what \<^verbatim>\<open>str.upper\<close> does to a
  string of ASCII characters (\<open>ascii\<close>) and to no other.
\<close>

definition upper_char :: "char \<Rightarrow> char" where
  "upper_char c =
     (let n = of_char c :: nat in if 97 \<le> n \<and> n \<le> 122 then char_of (n - 32) else c)"

definition upper :: "string \<Rightarrow> string" where
  "upper s = map upper_char s"

definition ascii :: "string \<Rightarrow> bool" where
  "ascii s = list_all (\<lambda>c. (of_char c :: nat) < 128) s"

definition remove_spaces :: "string \<Rightarrow> string" where
  "remove_spaces s = filter (\<lambda>c. c \<noteq> CHR '' '') s"

text \<open>
  The process: \<^verbatim>\<open>os.environ\<close>, the readable manifest files (by path, already parsed: the
  \<^verbatim>\<open>inputs\<close> mapping of the YAML document, every input a name, which is a string, with a
  mapping of its own), and the command line, \<^verbatim>\<open>sys.argv[1:]\<close>.
\<close>

type_synonym env = "string \<rightharpoonup> string"

type_synonym inputs = "(string \<times> dict) list"

record process =
  environ :: env
  files :: "string \<rightharpoonup> inputs"
  argv :: "string list"

section \<open>Library functions the toolkit calls\<close>

subsection \<open>\<^verbatim>\<open>os.path.expandvars\<close> (POSIX)\<close>

text \<open>
  A reference is \<^verbatim>\<open>$name\<close>, with \<^verbatim>\<open>name\<close> a longest run of ASCII letters, digits and
  underscores, or \<^verbatim>\<open>${name}\<close>, with \<^verbatim>\<open>name\<close> free of \<^verbatim>\<open>}\<close>. The text is scanned left to
  right; a reference to a variable of the environment is replaced by its value (which is
  not scanned again), any other is left as it is.
\<close>

definition word_char :: "char \<Rightarrow> bool" where
  "word_char c =
     (let n = of_char c :: nat in
      (48 \<le> n \<and> n \<le> 57) \<or> (65 \<le> n \<and> n \<le> 90) \<or> n = 95 \<or> (97 \<le> n \<and> n \<le> 122))"

text \<open>
  \<open>var_ref cs\<close> matches a reference at the text after a \<^verbatim>\<open>$\<close>: the variable's name, the
  matched text and what follows it.
\<close>

definition var_ref :: "string \<Rightarrow> (string \<times> string \<times> string) option" where
  "var_ref cs =
     (case cs of
        [] \<Rightarrow> None
      | c # cs' \<Rightarrow>
          if word_char c then
            Some (takeWhile word_char cs, takeWhile word_char cs, dropWhile word_char cs)
          else if c = CHR ''{'' then
            (case dropWhile (\<lambda>x. x \<noteq> CHR ''}'') cs' of
               [] \<Rightarrow> None
             | _ # rest \<Rightarrow>
                 (let body = takeWhile (\<lambda>x. x \<noteq> CHR ''}'') cs'
                  in Some (body, CHR ''{'' # body @ ''}'', rest)))
          else None)"

function expandvars :: "env \<Rightarrow> string \<Rightarrow> string" where
  "expandvars e [] = []"
| "expandvars e (c # cs) =
     (if c = CHR ''$'' then
        (case var_ref cs of
           None \<Rightarrow> c # expandvars e cs
         | Some (n, raw, rest) \<Rightarrow>
             (case e n of
                None \<Rightarrow> c # raw @ expandvars e rest
              | Some v \<Rightarrow> v @ expandvars e rest))
      else c # expandvars e cs)"
  by pat_completeness auto
termination
proof (relation "measure (\<lambda>(e, s). length s)")
  show "wf (measure (\<lambda>(e, s). length s))" by simp
next
  fix e :: env and c :: char and cs :: string
  show "((e, cs), (e, c # cs)) \<in> measure (\<lambda>(e, s). length s)" by simp
  then show "((e, cs), (e, c # cs)) \<in> measure (\<lambda>(e, s). length s)" .
next
  fix e :: env and c :: char and cs n raw rest :: string and x y
  assume h: "var_ref cs = Some x" "(n, y) = x" "(raw, rest) = y"
  have "length rest \<le> length cs"
  proof (cases cs)
    case Nil
    with h show ?thesis by (simp add: var_ref_def)
  next
    case (Cons c' cs')
    show ?thesis
    proof (cases "word_char c'")
      case True
      with h Cons have "rest = dropWhile word_char cs" by (auto simp: var_ref_def)
      then show ?thesis by (simp add: length_dropWhile_le)
    next
      case False
      with h Cons obtain z where "dropWhile (\<lambda>x. x \<noteq> CHR ''}'') cs' = z # rest"
        by (auto simp: var_ref_def Let_def split: if_splits list.splits)
      then have "length (z # rest) \<le> length cs'"
        using length_dropWhile_le [of "\<lambda>x. x \<noteq> CHR ''}''" cs'] by simp
      with Cons show ?thesis by simp
    qed
  qed
  then show "((e, rest), (e, c # cs)) \<in> measure (\<lambda>(e, s). length s)" by simp
  then show "((e, rest), (e, c # cs)) \<in> measure (\<lambda>(e, s). length s)" .
qed

subsection \<open>\<^verbatim>\<open>argparse\<close>\<close>

text \<open>
  What the toolkit uses of \<^verbatim>\<open>argparse\<close> (as CPython 3.11 has it): a parser is the list of the
  options added to it, each with its option string, its destination and its default;
  \<^verbatim>\<open>-h\<close> and \<^verbatim>\<open>--help\<close> are taken from the start. \<^verbatim>\<open>add_argument\<close> derives the destination
  from the option string (leading \<^verbatim>\<open>-\<close> stripped, every other \<^verbatim>\<open>-\<close> replaced by \<^verbatim>\<open>_\<close>),
  refuses an empty one and an option string already taken. \<^verbatim>\<open>parse_args\<close> first gives every
  destination not yet in the namespace the default of its option, in the order the options
  were added, then reads the command line (the arguments after the program's name). Every
  error of the command line leaves the process with status 2, after a usage message; the
  help option leaves it with status 0, after the help message. The namespace is the
  dictionary \<^verbatim>\<open>vars\<close> gives of it.
\<close>

datatype error = FileNotFoundError | AttributeError | ValueError | ArgumentError | SystemExit nat

datatype action = Action (option_string: string) (dest: string) (default_value: pyval)

type_synonym parser = "action list"

definition option_dest :: "string \<Rightarrow> string" where
  "option_dest opt =
     map (\<lambda>c. if c = CHR ''-'' then CHR ''_'' else c) (dropWhile (\<lambda>c. c = CHR ''-'') opt)"

definition add_argument :: "parser \<Rightarrow> string \<Rightarrow> pyval \<Rightarrow> error + parser" where
  "add_argument parser opt dflt =
     (if option_dest opt = [] then Inl ValueError
      else if opt \<in> set (''-h'' # ''--help'' # map option_string parser) then Inl ArgumentError
      else Inr (parser @ [Action opt (option_dest opt) dflt]))"

fun namespace_defaults :: "parser \<Rightarrow> dict \<Rightarrow> dict" where
  "namespace_defaults [] ns = ns"
| "namespace_defaults (a # as) ns =
     namespace_defaults as
       (if dest a \<in> set (map fst ns) then ns else ns @ [(dest a, default_value a)])"

text \<open>
  The command line. An argument is first classified: as an argument that is not an option
  (\<^verbatim>\<open>A\<close> in the pattern \<^verbatim>\<open>argparse\<close> builds), as the separator \<^verbatim>\<open>--\<close>, after which nothing is an
  option, as an option (the option of the parser it names, by its full option string,
  with \<^verbatim>\<open>=\<close> and a value, or by an unambiguous prefix, or none when it looks like an option
  and the parser has none for it), or as an ambiguous prefix. An option comes with the
  value written in the same argument, if any, and whether an \<^verbatim>\<open>=\<close> stood before it.
\<close>

datatype target = Help | Store action

datatype cls =
  Positional | Separator | Option "target option" string "(bool \<times> string) option" | Ambiguous

definition option_string_actions :: "parser \<Rightarrow> (string \<times> target) list" where
  "option_string_actions parser =
     (''-h'', Help) # (''--help'', Help) # map (\<lambda>a. (option_string a, Store a)) parser"

text \<open>\<^verbatim>\<open>o.startswith(p)\<close>, and \<^verbatim>\<open>s.partition('=')\<close> as the text before and, if any, after.\<close>

definition startswith :: "string \<Rightarrow> string \<Rightarrow> bool" where
  "startswith opt p = (take (length p) opt = p)"

definition partition_eq :: "string \<Rightarrow> string \<times> string option" where
  "partition_eq s =
     (takeWhile (\<lambda>c. c \<noteq> CHR ''='') s,
      case dropWhile (\<lambda>c. c \<noteq> CHR ''='') s of [] \<Rightarrow> None | _ # e \<Rightarrow> Some e)"

definition get_option_tuples ::
  "parser \<Rightarrow> string \<Rightarrow> (target \<times> string \<times> (bool \<times> string) option) list" where
  "get_option_tuples parser s =
     (if s ! 1 = CHR ''-'' then
        (case partition_eq s of
           (p, e) \<Rightarrow>
             map (\<lambda>(opt, t). (t, opt, map_option (Pair True) e))
               (filter (\<lambda>(opt, t). startswith opt p) (option_string_actions parser)))
      else
        concat (map (\<lambda>(opt, t).
                       if opt = take 2 s then [(t, opt, Some (False, drop 2 s))]
                       else if startswith opt s then [(t, opt, None)]
                       else [])
                  (option_string_actions parser)))"

text \<open>The pattern \<^verbatim>\<open>^-\d+$|^-\d*\.\d+$\<close> of a negative number (a final newline is allowed).\<close>

definition digit :: "char \<Rightarrow> bool" where
  "digit c = (let n = of_char c :: nat in 48 \<le> n \<and> n \<le> 57)"

definition negative_number :: "string \<Rightarrow> bool" where
  "negative_number s =
     (case (if s \<noteq> [] \<and> last s = CHR 0x0A then butlast s else s) of
        [] \<Rightarrow> False
      | c # r \<Rightarrow>
          c = CHR ''-'' \<and>
          ((r \<noteq> [] \<and> list_all digit r) \<or>
           (case dropWhile digit r of
              [] \<Rightarrow> False
            | d # f \<Rightarrow> d = CHR ''.'' \<and> f \<noteq> [] \<and> list_all digit f)))"

definition parse_optional :: "parser \<Rightarrow> string \<Rightarrow> cls" where
  "parse_optional parser s =
     (if s = [] then Positional
      else if hd s \<noteq> CHR ''-'' then Positional
      else
        (case map_of (option_string_actions parser) s of
           Some t \<Rightarrow> Option (Some t) s None
         | None \<Rightarrow>
             if length s = 1 then Positional
             else
               (case partition_eq s of
                  (opt, e) \<Rightarrow>
                    (case (e, map_of (option_string_actions parser) opt) of
                       (Some e', Some t) \<Rightarrow> Option (Some t) opt (Some (True, e'))
                     | _ \<Rightarrow>
                         (case get_option_tuples parser s of
                            [] \<Rightarrow>
                              if negative_number s then Positional
                              else if CHR '' '' \<in> set s then Positional
                              else Option None s None
                          | [(t, opt', x)] \<Rightarrow> Option (Some t) opt' x
                          | _ \<Rightarrow> Ambiguous)))))"

fun classify :: "parser \<Rightarrow> string list \<Rightarrow> (string \<times> cls) list" where
  "classify parser [] = []"
| "classify parser (s # rest) =
     (if s = ''--'' then (s, Separator) # map (\<lambda>r. (r, Positional)) rest
      else (s, parse_optional parser s) # classify parser rest)"

text \<open>
  The help option with a value in its own argument: the status the process is left with.
  \<^verbatim>\<open>-h\<close> followed by further letters is read as a run of one-letter options.
\<close>

fun help_explicit :: "bool \<Rightarrow> string \<Rightarrow> nat" where
  "help_explicit eq [] = 2"
| "help_explicit eq (c # r) =
     (if eq \<or> c = CHR ''-'' then 2
      else if c = CHR ''h'' then
        (case r of
           [] \<Rightarrow> 0
         | d # r' \<Rightarrow> if d = CHR ''='' then help_explicit True r' else help_explicit False r)
      else 0)"

text \<open>
  The arguments are then taken in order. An argument that is no option and was not taken
  as a value, and an option the parser does not have, are put aside; if any was, the
  process is left with status 2 at the end. An option stores its value: the one of its own
  argument, or the next argument, which must not be an option. The help option leaves the
  process with status 0.
\<close>

fun consume :: "(string \<times> cls) list \<Rightarrow> dict \<Rightarrow> bool \<Rightarrow> error + dict" where
  "consume [] ns extras = (if extras then Inl (SystemExit 2) else Inr ns)"
| "consume ((s, Positional) # rest) ns extras = consume rest ns True"
| "consume ((s, Separator) # rest) ns extras = consume rest ns True"
| "consume ((s, Ambiguous) # rest) ns extras = Inl (SystemExit 2)"
| "consume ((s, Option None opt x) # rest) ns extras = consume rest ns True"
| "consume ((s, Option (Some Help) opt None) # rest) ns extras = Inl (SystemExit 0)"
| "consume ((s, Option (Some Help) opt (Some (eq, e))) # rest) ns extras =
     (if opt = ''-h'' \<and> e \<noteq> [] then Inl (SystemExit (help_explicit eq e))
      else Inl (SystemExit 2))"
| "consume ((s, Option (Some (Store a)) opt (Some (eq, e))) # rest) ns extras =
     consume rest (AList.update (dest a) (VStr e) ns) extras"
| "consume ((s, Option (Some (Store a)) opt None) # []) ns extras = Inl (SystemExit 2)"
| "consume ((s, Option (Some (Store a)) opt None) # (v, c) # rest) ns extras =
     (if c = Positional then consume rest (AList.update (dest a) (VStr v) ns) extras
      else Inl (SystemExit 2))"

text \<open>
  An ambiguous prefix is an error when the arguments are classified, before any of them is
  read.
\<close>

definition parse_args :: "parser \<Rightarrow> string list \<Rightarrow> error + dict" where
  "parse_args parser args =
     (let cs = classify parser args in
      if Ambiguous \<in> set (map snd cs) then Inl (SystemExit 2)
      else consume cs (namespace_defaults parser []) False)"

section \<open>The toolkit\<close>

subsection \<open>\<^verbatim>\<open>ActionSpec\<close>\<close>

text \<open>
  The dataclass: \<^verbatim>\<open>filename\<close> and \<^verbatim>\<open>name\<close> are strings, the other fields default to
  \<^verbatim>\<open>None\<close>. The constructor runs \<^verbatim>\<open>__post_init__\<close>, which replaces a falsy \<^verbatim>\<open>long_name\<close>,
  \<^verbatim>\<open>description\<close> or \<^verbatim>\<open>env_prefix\<close> (\<^verbatim>\<open>None\<close> or the empty string) by \<^verbatim>\<open>name\<close>.
\<close>

record action_spec =
  filename :: string
  name :: string
  long_name :: "string option"
  description :: "string option"
  env_prefix :: "string option"
  set_defaults :: "(dict \<Rightarrow> dict) option"
  do_action :: "(dict \<Rightarrow> dict) option"

text \<open>\<^verbatim>\<open>x or y\<close> for an optional string \<open>x\<close> and a string \<open>y\<close>.\<close>

definition py_or :: "string option \<Rightarrow> string \<Rightarrow> string option" where
  "py_or x y = (case x of None \<Rightarrow> Some y | Some s \<Rightarrow> if s \<noteq> [] then Some s else Some y)"

definition post_init :: "action_spec \<Rightarrow> action_spec" where
  "post_init self =
     (let self = self\<lparr>long_name := py_or (long_name self) (name self)\<rparr>;
          self = self\<lparr>description := py_or (description self) (name self)\<rparr>;
          self = self\<lparr>env_prefix := py_or (env_prefix self) (name self)\<rparr>
      in self)"

definition ActionSpec ::
  "string \<Rightarrow> string \<Rightarrow> string option \<Rightarrow> string option \<Rightarrow> string option \<Rightarrow>
   (dict \<Rightarrow> dict) option \<Rightarrow> (dict \<Rightarrow> dict) option \<Rightarrow> action_spec" where
  "ActionSpec fn n ln d p sd da =
     post_init \<lparr>filename = fn, name = n, long_name = ln, description = d, env_prefix = p,
                set_defaults = sd, do_action = da\<rparr>"

subsection \<open>\<^verbatim>\<open>get_env\<close>\<close>

text \<open>
  The default is always passed; a call that leaves it out passes \<^verbatim>\<open>None\<close>. A value taken
  from the environment is a string.
\<close>

fun get_env :: "env \<Rightarrow> string list \<Rightarrow> pyval \<Rightarrow> pyval" where
  "get_env e [] dflt = dflt"
| "get_env e (n # envar_list) dflt =
     (case e n of
        None \<Rightarrow> get_env e envar_list dflt
      | Some v \<Rightarrow> if v \<noteq> [] then VStr v else get_env e envar_list dflt)"

subsection \<open>\<^verbatim>\<open>parse_arguments\<close>\<close>

text \<open>
  What the process shows of a run: the records logged (the logger passes both levels), the
  lines printed, the calls of the two functions the action supplies, and the help or usage
  message of \<^verbatim>\<open>argparse\<close> (its text is not modelled), in order.
\<close>

datatype event =
  LogInfo string | LogError string | Print string
  | Call_set_defaults dict | Call_do_action dict
  | PrintHelp | PrintUsage

datatype arg_spec =
  ArgSpec (arg_name: string) (arg_default: pyval) (arg_help: pyval) (arg_required: pyval)

text \<open>The first loop: one \<open>ArgSpec\<close> per input of the manifest.\<close>

definition expand_default :: "env \<Rightarrow> pyval \<Rightarrow> pyval" where
  "expand_default e dflt = (case dflt of VStr s \<Rightarrow> VStr (expandvars e s) | _ \<Rightarrow> dflt)"

definition read_inputs :: "env \<Rightarrow> inputs \<Rightarrow> arg_spec list" where
  "read_inputs e y =
     map (\<lambda>(input, input_dict).
            ArgSpec input
              (expand_default e (get input_dict ''default'' VNone))
              (get input_dict ''help'' VNone)
              (get input_dict ''required'' (VBool False))) y"

text \<open>The names \<open>get_env\<close> is given for an argument, in the order it tries them.\<close>

definition envar_names :: "string \<Rightarrow> string \<Rightarrow> string list" where
  "envar_names prefix n =
     [upper (remove_spaces prefix) @ ''_'' @ upper n, ''INPUT_'' @ upper n]"

text \<open>
  The second loop. The default is computed before \<open>add_argument\<close> is called, so an
  \<open>env_prefix\<close> of \<^verbatim>\<open>None\<close> raises first.
\<close>

fun add_arguments :: "action_spec \<Rightarrow> env \<Rightarrow> arg_spec list \<Rightarrow> parser \<Rightarrow> error + parser" where
  "add_arguments spec e [] parser = Inr parser"
| "add_arguments spec e (a # arguments) parser =
     (case env_prefix spec of
        None \<Rightarrow> Inl AttributeError
      | Some prefix \<Rightarrow>
          (case add_argument parser (''--'' @ arg_name a)
                  (get_env e (envar_names prefix (arg_name a)) (arg_default a)) of
             Inl err \<Rightarrow> Inl err
           | Inr parser' \<Rightarrow> add_arguments spec e arguments parser'))"

text \<open>The third loop: the required arguments whose name is not in the namespace.\<close>

definition missing_required :: "arg_spec list \<Rightarrow> dict \<Rightarrow> string list" where
  "missing_required arguments args =
     map arg_name
       (filter (\<lambda>a. truthy (arg_required a) \<and> arg_name a \<notin> set (map fst args)) arguments)"

text \<open>
  \<open>parse_arguments\<close> in two parts: \<open>build_parser\<close> reads the manifest and adds one option
  per input (up to the call of \<^verbatim>\<open>parse_args\<close>), and returns the \<open>ArgSpec\<close> list with the
  parser; \<open>parse_arguments\<close> parses the command line and checks the required arguments.
  It returns the namespace, the missing-arguments condition and what it logged.
\<close>

definition build_parser :: "action_spec \<Rightarrow> process \<Rightarrow> error + (arg_spec list \<times> parser)" where
  "build_parser spec proc =
     (case files proc (filename spec) of
        None \<Rightarrow> Inl FileNotFoundError
      | Some y \<Rightarrow>
          (let arguments = read_inputs (environ proc) y in
           case add_arguments spec (environ proc) arguments [] of
             Inl err \<Rightarrow> Inl err
           | Inr parser \<Rightarrow> Inr (arguments, parser)))"

definition parse_arguments :: "action_spec \<Rightarrow> process \<Rightarrow> error + (dict \<times> bool \<times> event list)" where
  "parse_arguments spec proc =
     (case build_parser spec proc of
        Inl err \<Rightarrow> Inl err
      | Inr (arguments, parser) \<Rightarrow>
          (case parse_args parser (argv proc) of
             Inl err \<Rightarrow> Inl err
           | Inr args \<Rightarrow>
               (let missing = missing_required arguments args
                in Inr (args, missing \<noteq> [],
                        map (\<lambda>n. LogError (''Missing required argument '' @ n)) missing))))"

subsection \<open>\<^verbatim>\<open>action_main\<close>\<close>

datatype outcome = Returned dict | Exited nat | Raised error

definition str_opt :: "string option \<Rightarrow> string" where
  "str_opt x = (case x of None \<Rightarrow> ''None'' | Some s \<Rightarrow> s)"

text \<open>The loop that logs the arguments, sorted by name.\<close>

definition log_arguments :: "dict \<Rightarrow> event list" where
  "log_arguments args =
     map (\<lambda>(arg, val).
            if arg = ''token'' then LogInfo (''  '' @ arg @ ''=********:'')
            else LogInfo (''  '' @ arg @ ''='' @ str val @ '':''))
       (sort_key fst args)"

definition print_outputs :: "dict \<Rightarrow> event list" where
  "print_outputs outputs =
     map (\<lambda>(n, result). Print (''::set-output name='' @ n @ ''::'' @ str result)) outputs
     @ map (\<lambda>(n, result). Print (''set-output name='' @ n @ ''::'' @ str result)) outputs"

text \<open>
  A run ends with the mapping returned, the status the process is left with, or the
  exception raised. Where \<open>parse_arguments\<close> leaves the process, \<^verbatim>\<open>argparse\<close> has printed its
  help message (status 0) or its usage message (any other status) before.
\<close>

definition action_main :: "action_spec \<Rightarrow> process \<Rightarrow> outcome \<times> event list" where
  "action_main spec proc =
     (case parse_arguments spec proc of
        Inl (SystemExit status) \<Rightarrow>
          (Exited status, [if status = 0 then PrintHelp else PrintUsage])
      | Inl err \<Rightarrow> (Raised err, [])
      | Inr (parsed, missing_args, logged) \<Rightarrow>
          (let (args, t1) =
                 (case set_defaults spec of
                    None \<Rightarrow> (parsed, [])
                  | Some f \<Rightarrow> (f parsed, [Call_set_defaults parsed]));
               t2 = LogInfo (str_opt (long_name spec) @ '', with arguments:'')
                      # log_arguments args
           in if missing_args then
                (Exited 1, logged @ t1 @ t2 @ [LogError ''Some required arguments are missing!''])
              else
                (case do_action spec of
                   Some f \<Rightarrow>
                     (let outputs = f args
                      in (Returned outputs,
                          logged @ t1 @ t2 @ [Call_do_action args] @ print_outputs outputs))
                 | None \<Rightarrow> (Returned [], logged @ t1 @ t2))))"

section \<open>Notions used in the statements\<close>

text \<open>
  The environment as the toolkit sees it: a variable set to the empty string counts as
  not set.
\<close>

definition nonempty :: "env \<Rightarrow> env" where
  "nonempty e = (\<lambda>n. case e n of None \<Rightarrow> None | Some v \<Rightarrow> if v = [] then None else Some v)"

text \<open>
  The value the environment and the manifest give the parameter \<open>n\<close> with the manifest
  entry \<open>input_dict\<close>: the tool-specific variable, then the generic one, each if set to a
  non-empty string; otherwise the default of the manifest, a string default with its
  references expanded.
\<close>

definition env_or_default :: "string \<Rightarrow> env \<Rightarrow> string \<Rightarrow> dict \<Rightarrow> pyval" where
  "env_or_default prefix e n input_dict =
     (case nonempty e (upper (remove_spaces prefix) @ ''_'' @ upper n) of
        Some v \<Rightarrow> VStr v
      | None \<Rightarrow>
          (case nonempty e (''INPUT_'' @ upper n) of
             Some v \<Rightarrow> VStr v
           | None \<Rightarrow>
               (case get input_dict ''default'' VNone of
                  VStr s \<Rightarrow> VStr (expandvars e s)
                | dflt \<Rightarrow> dflt)))"

text \<open>
  The values a classified command line stores when it is read without an error, each with
  its destination, in order.
\<close>

fun stored :: "(string \<times> cls) list \<Rightarrow> (string \<times> string) list" where
  "stored [] = []"
| "stored ((s, Option (Some (Store a)) opt (Some (eq, e))) # rest) = (dest a, e) # stored rest"
| "stored ((s, Option (Some (Store a)) opt None) # (v, c) # rest) = (dest a, v) # stored rest"
| "stored (_ # rest) = stored rest"

text \<open>The options whose values a classified command line stores.\<close>

fun store_actions :: "(string \<times> cls) list \<Rightarrow> action list" where
  "store_actions [] = []"
| "store_actions ((s, Option (Some (Store a)) opt x) # rest) = a # store_actions rest"
| "store_actions (_ # rest) = store_actions rest"

text \<open>The option \<open>build_parser\<close> adds for an \<open>ArgSpec\<close>.\<close>

definition mk_action :: "env \<Rightarrow> string \<Rightarrow> arg_spec \<Rightarrow> action" where
  "mk_action e prefix a =
     Action (''--'' @ arg_name a) (option_dest (''--'' @ arg_name a))
       (get_env e (envar_names prefix (arg_name a)) (arg_default a))"

text \<open>
  The lines \<open>action_main\<close> prints in a run, and the arguments \<open>do_action\<close> was called
  with.
\<close>

fun printed :: "event list \<Rightarrow> string list" where
  "printed [] = []"
| "printed (Print l # t) = l # printed t"
| "printed (_ # t) = printed t"

fun do_action_calls :: "event list \<Rightarrow> dict list" where
  "do_action_calls [] = []"
| "do_action_calls (Call_do_action args # t) = args # do_action_calls t"
| "do_action_calls (_ # t) = do_action_calls t"

text \<open>An argument with the value of \<^verbatim>\<open>token\<close> blanked.\<close>

definition mask :: "string \<times> pyval \<Rightarrow> string \<times> pyval" where
  "mask kv = (fst kv, if fst kv = ''token'' then VNone else snd kv)"

section \<open>Example runs\<close>

text \<open>
  The manifest of the docstring of \<open>parse_arguments\<close> and an \<open>ActionSpec\<close> like that of the
  module's docstring, with a prefix; a manifest with two required inputs, one without a
  value and one with a default; and one with a required input without a value whose name
  has a \<^verbatim>\<open>-\<close>.
\<close>

definition example_inputs :: inputs where
  "example_inputs =
     [(''user'', [(''description'', VStr ''User name.''), (''required'', VBool False)]),
      (''token'', [(''description'', VStr ''API Key for the User.''), (''required'', VBool False),
                   (''default'', VStr ''${GHE_TOKEN}'')])]"

definition example_spec :: action_spec where
  "example_spec =
     ActionSpec ''action.yaml'' ''foo'' (Some ''foo bar'') (Some ''fubar'') (Some ''foo bar'')
       (Some (\<lambda>args. args)) (Some (\<lambda>args. [(''foo'', VStr ''bar'')]))"

definition example_process :: process where
  "example_process =
     \<lparr>environ = [''GHE_TOKEN'' \<mapsto> ''secret'', ''INPUT_USER'' \<mapsto> ''bob'', ''FOOBAR_USER'' \<mapsto> []],
      files = [''action.yaml'' \<mapsto> example_inputs],
      argv = []\<rparr>"

definition required_inputs :: inputs where
  "required_inputs =
     [(''user'', [(''required'', VBool True)]),
      (''dry-run'', [(''required'', VBool True), (''default'', VInt 0)])]"

definition required_process :: process where
  "required_process =
     \<lparr>environ = Map.empty, files = [''action.yaml'' \<mapsto> required_inputs], argv = []\<rparr>"

definition missing_process :: process where
  "missing_process =
     \<lparr>environ = Map.empty,
      files = [''action.yaml'' \<mapsto> [(''dry-run'', [(''required'', VBool True)])]],
      argv = []\<rparr>"

section \<open>How the parser and the namespace are built\<close>

lemma add_argument_Inr:
  "add_argument p opt dflt = Inr p' \<Longrightarrow>
     p' = p @ [Action opt (option_dest opt) dflt] \<and> option_dest opt \<noteq> [] \<and>
     opt \<noteq> ''--help'' \<and> opt \<notin> set (map option_string p)"
  by (auto simp: add_argument_def split: if_splits)

lemma add_arguments_Inr:
  "add_arguments spec e as p = Inr p' \<Longrightarrow> env_prefix spec = Some prefix \<Longrightarrow>
     p' = p @ map (mk_action e prefix) as"
proof (induction as arbitrary: p)
  case Nil
  then show ?case by simp
next
  case (Cons a as)
  then obtain p1 where
    1: "add_argument p (''--'' @ arg_name a) (get_env e (envar_names prefix (arg_name a)) (arg_default a)) = Inr p1"
    and 2: "add_arguments spec e as p1 = Inr p'"
    by (auto split: sum.splits)
  from add_argument_Inr [OF 1] have "p1 = p @ [mk_action e prefix a]"
    by (simp add: mk_action_def)
  with Cons.IH [OF 2 Cons.prems(2)] show ?case by simp
qed

lemma add_arguments_prefix:
  "add_arguments spec e as p = Inr p' \<Longrightarrow> as \<noteq> [] \<Longrightarrow> \<exists>prefix. env_prefix spec = Some prefix"
  by (cases as) (auto split: option.splits)

lemma add_arguments_names:
  "add_arguments spec e as p = Inr p' \<Longrightarrow>
     distinct (map arg_name as) \<and>
     (\<forall>a \<in> set as. arg_name a \<noteq> ''help'' \<and> option_dest (''--'' @ arg_name a) \<noteq> [] \<and>
        ''--'' @ arg_name a \<notin> set (map option_string p))"
proof (induction as arbitrary: p)
  case Nil
  then show ?case by simp
next
  case (Cons a as)
  then obtain prefix p1 where
    0: "env_prefix spec = Some prefix" and
    1: "add_argument p (''--'' @ arg_name a) (get_env e (envar_names prefix (arg_name a)) (arg_default a)) = Inr p1"
    and 2: "add_arguments spec e as p1 = Inr p'"
    by (auto split: sum.splits option.splits)
  note A = add_argument_Inr [OF 1]
  note B = Cons.IH [OF 2]
  from A B show ?case by auto
qed

lemma namespace_defaults_lookup:
  "map_of (namespace_defaults p ns) d =
     (case map_of ns d of
        Some v \<Rightarrow> Some v
      | None \<Rightarrow> map_option default_value (find (\<lambda>a. dest a = d) p))"
proof (induction p arbitrary: ns)
  case Nil
  then show ?case by (simp split: option.splits)
next
  case (Cons a p)
  show ?case
  proof (cases "dest a \<in> set (map fst ns)")
    case True
    then have "map_of ns (dest a) \<noteq> None"
      by (simp add: map_of_eq_None_iff)
    then have "map_of ns d = None \<Longrightarrow> dest a \<noteq> d" by auto
    with True show ?thesis
      by (simp add: Cons.IH split: option.splits)
  next
    case False
    then have "map_of ns (dest a) = None"
      by (simp add: map_of_eq_None_iff)
    with False show ?thesis
      by (simp add: Cons.IH map_add_def split: option.splits)
  qed
qed

lemma namespace_defaults_keys:
  "set (map fst (namespace_defaults p ns)) = set (map fst ns) \<union> dest ` set p"
  by (induction p arbitrary: ns) auto

lemma namespace_defaults_distinct:
  "distinct (map fst ns) \<Longrightarrow> distinct (map fst (namespace_defaults p ns))"
  by (induction p arbitrary: ns) auto

lemma option_string_actions_store:
  "(opt, Store a) \<in> set (option_string_actions parser) \<Longrightarrow> a \<in> set parser"
  by (auto simp: option_string_actions_def)

lemma get_option_tuples_store:
  "(Store a, opt, x) \<in> set (get_option_tuples parser s) \<Longrightarrow> a \<in> set parser"
  by (auto simp: get_option_tuples_def option_string_actions_def split: if_splits prod.splits)

lemma parse_optional_store:
  assumes "parse_optional parser s = Option (Some (Store a)) opt x"
  shows "a \<in> set parser"
proof (cases "map_of (option_string_actions parser) s")
  case (Some t)
  with assms have "t = Store a"
    by (auto simp: parse_optional_def split: if_splits)
  with Some show ?thesis
    by (auto dest!: map_of_SomeD option_string_actions_store)
next
  case None
  obtain o' e where pe: "partition_eq s = (o', e)" by (cases "partition_eq s")
  show ?thesis
  proof (cases "\<exists>e' t. e = Some e' \<and> map_of (option_string_actions parser) o' = Some t")
    case True
    then obtain e' t where et: "e = Some e'" "map_of (option_string_actions parser) o' = Some t"
      by blast
    with assms None pe have "t = Store a"
      by (auto simp: parse_optional_def split: if_splits)
    with et show ?thesis
      by (auto dest!: map_of_SomeD option_string_actions_store)
  next
    case False
    with assms None pe have "get_option_tuples parser s = [(Store a, opt, x)]"
      by (auto simp: parse_optional_def split: if_splits option.splits list.splits)
    then have "(Store a, opt, x) \<in> set (get_option_tuples parser s)" by simp
    then show ?thesis by (rule get_option_tuples_store)
  qed
qed

lemma store_actions_Cons: "set (store_actions cs) \<subseteq> set (store_actions (c # cs))"
  by (induction "c # cs" rule: store_actions.induct) auto

lemma store_actions_Positional: "store_actions (map (\<lambda>r. (r, Positional)) rest) = []"
  by (induction rest) simp_all

lemma store_actions_head:
  "set (store_actions ((s, c) # cs)) =
     (case c of
        Option (Some (Store a)) opt x \<Rightarrow> insert a (set (store_actions cs))
      | _ \<Rightarrow> set (store_actions cs))"
  by (auto split: cls.splits option.splits target.splits)

lemma classify_store: "set (store_actions (classify parser args)) \<subseteq> set parser"
proof (induction args)
  case Nil
  show ?case by simp
next
  case (Cons s args)
  show ?case
  proof (cases "s = ''--''")
    case True
    then show ?thesis by (simp add: store_actions_Positional)
  next
    case False
    then have "classify parser (s # args) = (s, parse_optional parser s) # classify parser args"
      by simp
    then show ?thesis
      using Cons.IH parse_optional_store [of parser s]
      by (auto simp: store_actions_head simp del: store_actions.simps
          split: cls.splits option.splits target.splits)
  qed
qed

lemma stored_dest: "fst ` set (stored cs) \<subseteq> dest ` set (store_actions cs)"
proof (induction cs rule: stored.induct)
  case (3 s a opt v c rest)
  then show ?case
    using store_actions_Cons [of rest "(v, c)"] by auto
qed auto

lemma consume_lookup:
  "consume cs ns extras = Inr ns' \<Longrightarrow>
     map_of ns' d =
       (case map_of (rev (stored cs)) d of Some v \<Rightarrow> Some (VStr v) | None \<Rightarrow> map_of ns d)"
  by (induction cs ns extras rule: consume.induct)
     (auto simp: update_conv' map_add_def split: if_splits option.splits)

lemma consume_keys:
  "consume cs ns extras = Inr ns' \<Longrightarrow>
     set (map fst ns') = set (map fst ns) \<union> fst ` set (stored cs)"
  by (induction cs ns extras rule: consume.induct)
     (auto simp: dom_update split: if_splits)

lemma read_inputs_names: "map arg_name (read_inputs e y) = map fst y"
  by (simp add: read_inputs_def comp_def case_prod_beta)

lemma read_inputs_member:
  "(n, input_dict) \<in> set y \<Longrightarrow>
     ArgSpec n (expand_default e (get input_dict ''default'' VNone))
       (get input_dict ''help'' VNone) (get input_dict ''required'' (VBool False))
     \<in> set (read_inputs e y)"
  by (force simp: read_inputs_def)

lemma build_parser_Inr:
  assumes "build_parser spec proc = Inr (arguments, parser)"
    and "files proc (filename spec) = Some y"
  shows "arguments = read_inputs (environ proc) y"
    and "add_arguments spec (environ proc) arguments [] = Inr parser"
  using assms by (auto simp: build_parser_def Let_def split: sum.splits)

lemma expand_default_cases:
  "expand_default e x = (case x of VStr s \<Rightarrow> VStr (expandvars e s) | dflt \<Rightarrow> dflt)"
  by (cases x) (simp_all add: expand_default_def)

lemma find_by_name:
  "distinct (map arg_name as) \<Longrightarrow> a \<in> set as \<Longrightarrow> find (\<lambda>x. arg_name x = arg_name a) as = Some a"
  by (induction as) (auto simp: rev_image_eqI)

lemma find_option_mk_action:
  "distinct (map arg_name as) \<Longrightarrow> a \<in> set as \<Longrightarrow>
     find (\<lambda>x. option_string x = ''--'' @ arg_name a) (map (mk_action e prefix) as)
       = Some (mk_action e prefix a)"
  by (induction as) (auto simp: mk_action_def)

lemma find_dest_mk_action:
  "distinct (map arg_name as) \<Longrightarrow> a \<in> set as \<Longrightarrow>
   \<forall>a' \<in> set as. option_dest (''--'' @ arg_name a') = option_dest (''--'' @ arg_name a)
      \<longrightarrow> arg_name a' = arg_name a \<Longrightarrow>
     find (\<lambda>x. dest x = option_dest (''--'' @ arg_name a)) (map (mk_action e prefix) as)
       = Some (mk_action e prefix a)"
  by (induction as) (auto simp: mk_action_def)

lemma get_env_envar_names:
  "get_env e (envar_names prefix n) dflt =
     (case nonempty e (upper (remove_spaces prefix) @ ''_'' @ upper n) of
        Some v \<Rightarrow> VStr v
      | None \<Rightarrow> (case nonempty e (''INPUT_'' @ upper n) of Some v \<Rightarrow> VStr v | None \<Rightarrow> dflt))"
  by (simp add: envar_names_def nonempty_def split: option.splits)

lemma parser_option:
  assumes "build_parser spec proc = Inr (arguments, parser)"
    and "files proc (filename spec) = Some y"
    and "(n, input_dict) \<in> set y"
    and "env_prefix spec = Some prefix"
  shows "find (\<lambda>a. option_string a = ''--'' @ n) parser =
     Some (Action (''--'' @ n) (option_dest (''--'' @ n))
        (get_env (environ proc) (envar_names prefix n)
           (expand_default (environ proc) (get input_dict ''default'' VNone))))"
proof -
  let ?e = "environ proc"
  let ?a = "ArgSpec n (expand_default ?e (get input_dict ''default'' VNone))
       (get input_dict ''help'' VNone) (get input_dict ''required'' (VBool False))"
  note b = build_parser_Inr [OF assms(1,2)]
  have mem: "?a \<in> set arguments"
    unfolding b(1) using assms(3) by (rule read_inputs_member)
  have p: "parser = map (mk_action ?e prefix) arguments"
    using add_arguments_Inr [OF b(2) assms(4)] by simp
  have d: "distinct (map arg_name arguments)"
    using add_arguments_names [OF b(2)] by simp
  from find_option_mk_action [OF d mem, of ?e prefix]
  show ?thesis by (simp add: p mk_action_def)
qed

section \<open>Expansion of references\<close>

text \<open>
  A text without \<^verbatim>\<open>$\<close> is left as it is. The first reference \<^verbatim>\<open>${n}\<close> of a text is
  replaced by the value of \<open>n\<close> when the environment has one and left as it is otherwise,
  and the expansion goes on after it.
\<close>

lemma expandvars_no_dollar: "CHR ''$'' \<notin> set s \<Longrightarrow> expandvars e s = s"
  by (induction s) auto

lemma var_ref_braces:
  assumes "CHR ''}'' \<notin> set n"
  shows "var_ref (''{'' @ n @ ''}'' @ post) = Some (n, ''{'' @ n @ ''}'', post)"
proof -
  from assms have d: "dropWhile (\<lambda>x. x \<noteq> CHR ''}'') (n @ CHR ''}'' # post) = CHR ''}'' # post"
    by (induction n) auto
  from assms have t: "takeWhile (\<lambda>x. x \<noteq> CHR ''}'') (n @ CHR ''}'' # post) = n"
    by (induction n) auto
  show ?thesis
    by (simp add: var_ref_def word_char_def d t)
qed

lemma expandvars_braces:
  assumes "CHR ''$'' \<notin> set pre" and "CHR ''}'' \<notin> set n"
  shows "expandvars e (pre @ ''${'' @ n @ ''}'' @ post) =
     pre @ (case e n of Some v \<Rightarrow> v | None \<Rightarrow> ''${'' @ n @ ''}'') @ expandvars e post"
  using assms(1)
proof (induction pre)
  case Nil
  from var_ref_braces [OF assms(2), of post] show ?case
    by (simp split: option.splits)
next
  case (Cons c pre)
  then show ?case by auto
qed

section \<open>The example runs, evaluated\<close>

lemmas run_defs =
  ActionSpec_def post_init_def py_or_def Let_def parse_arguments_def build_parser_def
  read_inputs_def get_def expand_default_def var_ref_def word_char_def envar_names_def
  upper_def upper_char_def remove_spaces_def add_argument_def option_dest_def parse_args_def
  missing_required_def char_of_eq_iff

lemmas argparse_defs =
  parse_optional_def option_string_actions_def partition_eq_def get_option_tuples_def
  startswith_def negative_number_def digit_def

lemma example_spec_fields:
  "filename example_spec = ''action.yaml''" "env_prefix example_spec = Some ''foo bar''"
  "long_name example_spec = Some ''foo bar''"
  "set_defaults example_spec = Some (\<lambda>args. args)"
  "do_action example_spec = Some (\<lambda>args. [(''foo'', VStr ''bar'')])"
  by (simp_all add: example_spec_def ActionSpec_def post_init_def py_or_def Let_def)

lemma example_files:
  "files example_process (filename example_spec) = Some example_inputs"
  "files required_process (filename example_spec) = Some required_inputs"
  by (simp_all add: example_process_def required_process_def example_spec_fields)

lemma example_build:
  "build_parser example_spec example_process =
     Inr ([ArgSpec ''user'' VNone VNone (VBool False),
           ArgSpec ''token'' (VStr ''secret'') VNone (VBool False)],
          [Action ''--user'' ''user'' (VStr ''bob''),
           Action ''--token'' ''token'' (VStr ''secret'')])"
  by (simp add: example_spec_def example_process_def example_inputs_def run_defs)

lemma example_parse:
  "parse_arguments example_spec example_process =
     Inr ([(''user'', VStr ''bob''), (''token'', VStr ''secret'')], False, [])"
  by (simp add: example_spec_def example_process_def example_inputs_def run_defs)

text \<open>
  Command lines: a prefix of an option string and an \<^verbatim>\<open>=\<close> with the value, a later value
  over an earlier one; a value that looks like an option; an option the parser does not
  have, followed by the help option.
\<close>

lemma example_parse_flag:
  "parse_arguments example_spec
     (example_process\<lparr>argv := [''--us'', ''eve'', ''--user=alice'', ''--token'', ''-1'']\<rparr>) =
     Inr ([(''user'', VStr ''alice''), (''token'', VStr ''-1'')], False, [])"
  by (simp add: example_spec_def example_process_def example_inputs_def run_defs argparse_defs)

lemma example_exits:
  "action_main example_spec (example_process\<lparr>argv := [''--user'', ''-x'']\<rparr>) =
     (Exited 2, [PrintUsage])"
  "action_main example_spec (example_process\<lparr>argv := [''--zzz'', ''1'', ''--help'']\<rparr>) =
     (Exited 0, [PrintHelp])"
  "action_main example_spec (example_process\<lparr>argv := [''--zzz'', ''1'']\<rparr>) =
     (Exited 2, [PrintUsage])"
  by (simp_all add: action_main_def example_spec_def example_process_def example_inputs_def
      run_defs argparse_defs)

lemma required_parse:
  "parse_arguments example_spec required_process =
     Inr ([(''user'', VNone), (''dry_run'', VInt 0)], True,
          [LogError ''Missing required argument dry-run''])"
  by (simp add: example_spec_def required_process_def required_inputs_def run_defs)

section \<open>\<^verbatim>\<open>get_env\<close>\<close>

lemma get_env_map_filter:
  "get_env e ns dflt = (case List.map_filter (nonempty e) ns of [] \<Rightarrow> dflt | v # _ \<Rightarrow> VStr v)"
  by (induction ns) (auto simp: map_filter_simps nonempty_def split: option.splits)

lemma get_env_nonempty: "get_env (nonempty e) ns dflt = get_env e ns dflt"
  by (induction ns) (auto simp: nonempty_def split: option.splits)

lemma get_env_result: "get_env e ns dflt = dflt \<or> (\<exists>v. v \<noteq> [] \<and> get_env e ns dflt = VStr v)"
  by (induction ns) (auto split: option.splits)

text \<open>
  Claim C8. For every list of names and every default, \<open>get_env\<close> returns the value of the
  first name of the list that the environment binds to a non-empty string, and the default
  when there is none; it treats a name bound to the empty string as it treats an unset
  one; and it returns the empty string only when that is the default it was given.
\<close>

theorem get_env_first_nonempty:
  "get_env e ns dflt = (case List.map_filter (nonempty e) ns of [] \<Rightarrow> dflt | v # _ \<Rightarrow> VStr v)
   \<and> get_env e ns dflt = get_env (nonempty e) ns dflt
   \<and> (get_env e ns dflt = VStr [] \<longrightarrow> dflt = VStr [])"
  using get_env_map_filter [of e ns dflt] get_env_nonempty [of e ns dflt]
    get_env_result [of e ns dflt]
  by auto

theorem get_env_first_nonempty_witness:
  "get_env [''A'' \<mapsto> [], ''B'' \<mapsto> ''b'', ''C'' \<mapsto> ''c''] [''Z'', ''A'', ''B'', ''C''] VNone = VStr ''b''
   \<and> List.map_filter (nonempty [''A'' \<mapsto> [], ''B'' \<mapsto> ''b'', ''C'' \<mapsto> ''c'']) [''Z'', ''A'', ''B'', ''C''] = [''b'', ''c'']
   \<and> get_env [''A'' \<mapsto> []] [''Z'', ''A''] VNone = VNone
   \<and> get_env [''A'' \<mapsto> []] [''A''] (VStr []) = VStr []"
  using get_env_first_nonempty [of "[''A'' \<mapsto> [], ''B'' \<mapsto> ''b'', ''C'' \<mapsto> ''c'']" "[''Z'', ''A'', ''B'', ''C'']" VNone]
    get_env_first_nonempty [of "[''A'' \<mapsto> []]" "[''Z'', ''A'']" VNone]
    get_env_first_nonempty [of "[''A'' \<mapsto> []]" "[''A'']" "VStr []"]
  by (simp add: map_filter_simps nonempty_def)

section \<open>\<^verbatim>\<open>ActionSpec\<close>\<close>

text \<open>
  Claim C9. After construction the fields \<open>long_name\<close>, \<open>description\<close> and \<open>env_prefix\<close>
  are not \<^verbatim>\<open>None\<close>: each is the value given when that is a non-empty string and the
  \<open>name\<close> otherwise. The later operations rely on it: the loop of \<open>parse_arguments\<close> that
  adds the options never meets an \<open>env_prefix\<close> of \<^verbatim>\<open>None\<close> on a constructed \<open>ActionSpec\<close>
  but builds the variable names from the normalised prefix, and the heading
  \<open>action_main\<close> logs is the normalised \<open>long_name\<close>.
\<close>

theorem ActionSpec_normalized:
  "long_name (ActionSpec fn n ln d p sd da) \<noteq> None
   \<and> description (ActionSpec fn n ln d p sd da) \<noteq> None
   \<and> env_prefix (ActionSpec fn n ln d p sd da) \<noteq> None
   \<and> long_name (ActionSpec fn n ln d p sd da) = (if ln = None \<or> ln = Some [] then Some n else ln)
   \<and> description (ActionSpec fn n ln d p sd da) = (if d = None \<or> d = Some [] then Some n else d)
   \<and> env_prefix (ActionSpec fn n ln d p sd da) = (if p = None \<or> p = Some [] then Some n else p)
   \<and> name (ActionSpec fn n ln d p sd da) = n
   \<and> add_arguments (ActionSpec fn n ln d p sd da) e (a # arguments) parser =
       (case add_argument parser (''--'' @ arg_name a)
               (get_env e
                  (envar_names (case p of None \<Rightarrow> n | Some s \<Rightarrow> if s = [] then n else s)
                     (arg_name a))
                  (arg_default a)) of
          Inl err \<Rightarrow> Inl err
        | Inr parser' \<Rightarrow> add_arguments (ActionSpec fn n ln d p sd da) e arguments parser')
   \<and> str_opt (long_name (ActionSpec fn n ln d p sd da)) =
       (case ln of None \<Rightarrow> n | Some s \<Rightarrow> if s = [] then n else s)"
proof -
  let ?s = "ActionSpec fn n ln d p sd da"
  have fields:
    "long_name ?s = (if ln = None \<or> ln = Some [] then Some n else ln)"
    "description ?s = (if d = None \<or> d = Some [] then Some n else d)"
    "env_prefix ?s = (if p = None \<or> p = Some [] then Some n else p)"
    "name ?s = n"
    by (auto simp: ActionSpec_def post_init_def py_or_def Let_def split: option.splits)
  then have some: "long_name ?s \<noteq> None" "description ?s \<noteq> None" "env_prefix ?s \<noteq> None"
    by (auto split: if_splits)
  have prefix: "env_prefix ?s = Some (case p of None \<Rightarrow> n | Some s \<Rightarrow> if s = [] then n else s)"
    unfolding fields(3) by (cases p) auto
  have loop: "add_arguments ?s e (a # arguments) parser =
       (case add_argument parser (''--'' @ arg_name a)
               (get_env e
                  (envar_names (case p of None \<Rightarrow> n | Some s \<Rightarrow> if s = [] then n else s)
                     (arg_name a))
                  (arg_default a)) of
          Inl err \<Rightarrow> Inl err
        | Inr parser' \<Rightarrow> add_arguments ?s e arguments parser')"
    by (simp only: add_arguments.simps prefix option.case)
  have heading: "str_opt (long_name ?s) = (case ln of None \<Rightarrow> n | Some s \<Rightarrow> if s = [] then n else s)"
    unfolding fields(1) by (cases ln) (auto simp: str_opt_def)
  from fields some loop heading show ?thesis by blast
qed

theorem ActionSpec_normalized_witness:
  "long_name (ActionSpec ''action.yaml'' ''foo'' None (Some []) (Some ''foo bar'') None None) = Some ''foo''
   \<and> description (ActionSpec ''action.yaml'' ''foo'' None (Some []) (Some ''foo bar'') None None) = Some ''foo''
   \<and> env_prefix (ActionSpec ''action.yaml'' ''foo'' None (Some []) (Some ''foo bar'') None None) = Some ''foo bar''
   \<and> str_opt (long_name (ActionSpec ''action.yaml'' ''foo'' None (Some []) (Some ''foo bar'') None None)) = ''foo''
   \<and> add_arguments (ActionSpec ''action.yaml'' ''foo'' None (Some []) (Some ''foo bar'') None None)
        [''FOOBAR_USER'' \<mapsto> ''bob''] [ArgSpec ''user'' VNone VNone (VBool False)] []
      = Inr [Action ''--user'' ''user'' (VStr ''bob'')]"
proof -
  let ?s = "ActionSpec ''action.yaml'' ''foo'' None (Some []) (Some ''foo bar'') None None"
  note t = ActionSpec_normalized [of "''action.yaml''" "''foo''" None "Some []" "Some ''foo bar''" None None
      "[''FOOBAR_USER'' \<mapsto> ''bob'']" "ArgSpec ''user'' VNone VNone (VBool False)" "[]" "[]"]
  from t have f: "long_name ?s = Some ''foo''" "description ?s = Some ''foo''"
    "env_prefix ?s = Some ''foo bar''" "str_opt (long_name ?s) = ''foo''"
    by (simp_all add: str_opt_def)
  from t have "add_arguments ?s [''FOOBAR_USER'' \<mapsto> ''bob''] [ArgSpec ''user'' VNone VNone (VBool False)] [] =
      (case add_argument [] (''--'' @ ''user'')
               (get_env [''FOOBAR_USER'' \<mapsto> ''bob''] (envar_names ''foo bar'' ''user'') VNone) of
          Inl err \<Rightarrow> Inl err
        | Inr parser' \<Rightarrow> add_arguments ?s [''FOOBAR_USER'' \<mapsto> ''bob''] [] parser')"
    by simp
  then have "add_arguments ?s [''FOOBAR_USER'' \<mapsto> ''bob''] [ArgSpec ''user'' VNone VNone (VBool False)] []
      = Inr [Action ''--user'' ''user'' (VStr ''bob'')]"
    by (simp add: envar_names_def upper_def upper_char_def remove_spaces_def add_argument_def
        option_dest_def char_of_eq_iff)
  with f show ?thesis by simp
qed

section \<open>\<^verbatim>\<open>parse_arguments\<close>\<close>

text \<open>
  Claim C3. For every parameter \<open>n\<close> of the manifest, the default that \<open>parse_arguments\<close>
  registers for the option \<^verbatim>\<open>--n\<close> is found by looking up two environment variables in this
  order: first the \<open>env_prefix\<close> with its spaces removed, in upper case, followed by an
  underscore and \<open>n\<close> in upper case; then \<^verbatim>\<open>INPUT_\<close> followed by \<open>n\<close> in upper case. The
  first of the two that is set to a non-empty string gives the value; the default of the
  manifest is used when neither is. The prefix and the name are strings of ASCII
  characters, where \<open>upper\<close> is \<^verbatim>\<open>str.upper\<close>.
\<close>

theorem envar_names_in_order:
  assumes "build_parser spec proc = Inr (arguments, parser)"
    and "files proc (filename spec) = Some y"
    and "(n, input_dict) \<in> set y"
    and "env_prefix spec = Some prefix"
    and "ascii prefix" and "ascii n"
  shows "\<exists>a. find (\<lambda>a. option_string a = ''--'' @ n) parser = Some a \<and>
     default_value a =
       (case nonempty (environ proc) (upper (remove_spaces prefix) @ ''_'' @ upper n) of
          Some v \<Rightarrow> VStr v
        | None \<Rightarrow>
            (case nonempty (environ proc) (''INPUT_'' @ upper n) of
               Some v \<Rightarrow> VStr v
             | None \<Rightarrow>
                 (case get input_dict ''default'' VNone of
                    VStr s \<Rightarrow> VStr (expandvars (environ proc) s)
                  | dflt \<Rightarrow> dflt)))"
proof -
  let ?e = "environ proc"
  let ?a = "ArgSpec n (expand_default ?e (get input_dict ''default'' VNone))
       (get input_dict ''help'' VNone) (get input_dict ''required'' (VBool False))"
  note b = build_parser_Inr [OF assms(1,2)]
  have mem: "?a \<in> set arguments"
    unfolding b(1) using assms(3) by (rule read_inputs_member)
  have d: "distinct (map arg_name arguments)"
    using add_arguments_names [OF b(2)] by simp
  from parser_option [OF assms(1-4)] show ?thesis
    by (simp add: get_env_envar_names expand_default_cases cong: option.case_cong)
qed

theorem envar_names_in_order_witness:
  "map_option default_value
     (find (\<lambda>a. option_string a = ''--user'')
        [Action ''--user'' ''user'' (VStr ''bob''), Action ''--token'' ''token'' (VStr ''secret'')])
     = Some (VStr ''bob'')
   \<and> nonempty (environ example_process) (upper (remove_spaces ''foo bar'') @ ''_'' @ upper ''user'') = None
   \<and> upper (remove_spaces ''foo bar'') @ ''_'' @ upper ''user'' = ''FOOBAR_USER''
   \<and> environ example_process ''FOOBAR_USER'' = Some []
   \<and> nonempty (environ example_process) (''INPUT_'' @ upper ''user'') = Some ''bob''"
proof -
  have u: "(''user'', [(''description'', VStr ''User name.''), (''required'', VBool False)])
      \<in> set example_inputs"
    by (simp add: example_inputs_def)
  have asc: "ascii ''foo bar''" "ascii ''user''"
    by (simp_all add: ascii_def)
  from envar_names_in_order [OF example_build example_files(1) u example_spec_fields(2) asc]
  obtain a where
    a1: "find (\<lambda>a. option_string a = ''--'' @ ''user'')
       [Action ''--user'' ''user'' (VStr ''bob''), Action ''--token'' ''token'' (VStr ''secret'')] = Some a"
    and a2: "default_value a =
       (case nonempty (environ example_process) (upper (remove_spaces ''foo bar'') @ ''_'' @ upper ''user'') of
          Some v \<Rightarrow> VStr v
        | None \<Rightarrow>
            (case nonempty (environ example_process) (''INPUT_'' @ upper ''user'') of
               Some v \<Rightarrow> VStr v
             | None \<Rightarrow>
                 (case get [(''description'', VStr ''User name.''), (''required'', VBool False)]
                         ''default'' VNone of
                    VStr s \<Rightarrow> VStr (expandvars (environ example_process) s)
                  | dflt \<Rightarrow> dflt)))"
    by blast
  have "default_value a = VStr ''bob''"
    unfolding a2 by (simp add: example_process_def nonempty_def run_defs)
  with a1 have 1: "map_option default_value
     (find (\<lambda>a. option_string a = ''--user'')
        [Action ''--user'' ''user'' (VStr ''bob''), Action ''--token'' ''token'' (VStr ''secret'')])
     = Some (VStr ''bob'')"
    by (simp only: append.simps option.map)
  have 2: "upper (remove_spaces ''foo bar'') @ ''_'' @ upper ''user'' = ''FOOBAR_USER''"
    "''INPUT_'' @ upper ''user'' = ''INPUT_USER''"
    by (simp_all add: run_defs)
  have 3: "nonempty (environ example_process) ''FOOBAR_USER'' = None"
    "environ example_process ''FOOBAR_USER'' = Some []"
    "nonempty (environ example_process) ''INPUT_USER'' = Some ''bob''"
    by (simp_all add: example_process_def nonempty_def)
  from 1 2 3 show ?thesis by simp
qed

text \<open>
  Claim C4. For every parameter of the manifest, the default kept in its \<open>ArgSpec\<close> is the
  default of the manifest with its environment references expanded by
  \<^verbatim>\<open>os.path.expandvars\<close> when it is a string, and the default of the manifest as it is
  otherwise (\<^verbatim>\<open>None\<close> when there is none); that is the value \<open>get_env\<close> falls back on when
  the option is added. What the expansion does to a \<^verbatim>\<open>${name}\<close> reference is
  \<open>expandvars_braces\<close>.
\<close>

theorem default_expanded_before_resolution:
  assumes "build_parser spec proc = Inr (arguments, parser)"
    and "files proc (filename spec) = Some y"
    and "(n, input_dict) \<in> set y"
    and "env_prefix spec = Some prefix"
  shows "find (\<lambda>a. arg_name a = n) arguments =
      Some (ArgSpec n
        (case get input_dict ''default'' VNone of
           VStr s \<Rightarrow> VStr (expandvars (environ proc) s)
         | dflt \<Rightarrow> dflt)
        (get input_dict ''help'' VNone) (get input_dict ''required'' (VBool False)))
    \<and> map_option default_value (find (\<lambda>a. option_string a = ''--'' @ n) parser) =
      Some (get_env (environ proc)
        [upper (remove_spaces prefix) @ ''_'' @ upper n, ''INPUT_'' @ upper n]
        (case get input_dict ''default'' VNone of
           VStr s \<Rightarrow> VStr (expandvars (environ proc) s)
         | dflt \<Rightarrow> dflt))"
proof -
  let ?e = "environ proc"
  let ?a = "ArgSpec n (expand_default ?e (get input_dict ''default'' VNone))
       (get input_dict ''help'' VNone) (get input_dict ''required'' (VBool False))"
  note b = build_parser_Inr [OF assms(1,2)]
  have mem: "?a \<in> set arguments"
    unfolding b(1) using assms(3) by (rule read_inputs_member)
  have d: "distinct (map arg_name arguments)"
    using add_arguments_names [OF b(2)] by simp
  have "find (\<lambda>a. arg_name a = n) arguments = Some ?a"
    using find_by_name [OF d mem] by simp
  with parser_option [OF assms] show ?thesis
    by (simp only: envar_names_def expand_default_cases option.map arg_spec.sel action.sel simp_thms)
qed

theorem default_expanded_before_resolution_witness:
  "find (\<lambda>a. arg_name a = ''token'')
     [ArgSpec ''user'' VNone VNone (VBool False), ArgSpec ''token'' (VStr ''secret'') VNone (VBool False)]
     = Some (ArgSpec ''token'' (VStr (expandvars (environ example_process) ''${GHE_TOKEN}'')) VNone
               (VBool False))
   \<and> expandvars (environ example_process) ''${GHE_TOKEN}'' = ''secret''
   \<and> expandvars (environ example_process) ''$HOME/${GHE_TOKEN}-$GHE_TOKEN.txt'' = ''$HOME/secret-secret.txt''"
proof -
  have t: "(''token'', [(''description'', VStr ''API Key for the User.''), (''required'', VBool False),
              (''default'', VStr ''${GHE_TOKEN}'')]) \<in> set example_inputs"
    by (simp add: example_inputs_def)
  have e: "expandvars (environ example_process) ''${GHE_TOKEN}'' = ''secret''"
    "expandvars (environ example_process) ''$HOME/${GHE_TOKEN}-$GHE_TOKEN.txt'' = ''$HOME/secret-secret.txt''"
    by (simp_all add: example_process_def run_defs)
  from default_expanded_before_resolution [OF example_build example_files(1) t example_spec_fields(2)] e
  show ?thesis by (simp add: get_def)
qed

text \<open>
  Where the destination of a parameter is the destination of no other, the value
  \<open>parse_arguments\<close> returns for it is the last value the command line stores under the
  destination, if there is one, and what the environment and the manifest give otherwise.
\<close>

lemma precedence_unique_destination:
  assumes "build_parser spec proc = Inr (arguments, parser)"
    and "parse_args parser (argv proc) = Inr args"
    and "files proc (filename spec) = Some y"
    and "(n, input_dict) \<in> set y"
    and "env_prefix spec = Some prefix"
    and "\<forall>(n', d') \<in> set y. option_dest (''--'' @ n') = option_dest (''--'' @ n) \<longrightarrow> n' = n"
  shows "map_of args (option_dest (''--'' @ n)) =
     Some (case map_of (rev (stored (classify parser (argv proc)))) (option_dest (''--'' @ n)) of
             Some v \<Rightarrow> VStr v
           | None \<Rightarrow> env_or_default prefix (environ proc) n input_dict)"
proof -
  let ?e = "environ proc"
  let ?d = "option_dest (''--'' @ n)"
  let ?a = "ArgSpec n (expand_default ?e (get input_dict ''default'' VNone))
       (get input_dict ''help'' VNone) (get input_dict ''required'' (VBool False))"
  note b = build_parser_Inr [OF assms(1,3)]
  have mem: "?a \<in> set arguments"
    unfolding b(1) using assms(4) by (rule read_inputs_member)
  have p: "parser = map (mk_action ?e prefix) arguments"
    using add_arguments_Inr [OF b(2) assms(5)] by simp
  have d: "distinct (map arg_name arguments)"
    using add_arguments_names [OF b(2)] by simp
  have names: "arg_name ` set arguments = fst ` set y"
    using read_inputs_names [of ?e y] b(1) by (metis list.set_map)
  have uniq: "\<forall>a' \<in> set arguments. option_dest (''--'' @ arg_name a') = option_dest (''--'' @ arg_name ?a)
      \<longrightarrow> arg_name a' = arg_name ?a"
  proof
    fix a' assume "a' \<in> set arguments"
    then have "arg_name a' \<in> fst ` set y" using names by blast
    then obtain d' where "(arg_name a', d') \<in> set y" by auto
    with assms(6) show "option_dest (''--'' @ arg_name a') = option_dest (''--'' @ arg_name ?a)
      \<longrightarrow> arg_name a' = arg_name ?a" by auto
  qed
  have dflt: "map_of (namespace_defaults parser []) ?d = Some (default_value (mk_action ?e prefix ?a))"
    using find_dest_mk_action [OF d mem uniq, of ?e prefix]
    by (simp add: namespace_defaults_lookup p)
  from assms(2) have "consume (classify parser (argv proc)) (namespace_defaults parser []) False = Inr args"
    by (simp add: parse_args_def Let_def split: if_splits)
  from consume_lookup [OF this, of ?d]
  have val: "map_of args ?d =
      (case map_of (rev (stored (classify parser (argv proc)))) ?d of
         Some v \<Rightarrow> Some (VStr v)
       | None \<Rightarrow> Some (default_value (mk_action ?e prefix ?a)))"
    by (simp only: dflt)
  have dv: "default_value (mk_action ?e prefix ?a) = env_or_default prefix ?e n input_dict"
    by (simp add: mk_action_def get_env_envar_names expand_default_cases env_or_default_def
        cong: option.case_cong)
  show ?thesis
    unfolding val dv
    by (cases "map_of (rev (stored (classify parser (argv proc)))) ?d") simp_all
qed

text \<open>
  Claim C1 does not hold of the code. The namespace has one entry for a destination, and
  \<open>parse_args\<close> gives it the default of the first option with that destination. With the
  inputs \<^verbatim>\<open>a-b\<close> (default \<^verbatim>\<open>x\<close>) and \<^verbatim>\<open>a_b\<close> (default \<^verbatim>\<open>y\<close>), an empty command line and an
  empty environment, the value returned for \<^verbatim>\<open>a_b\<close> is \<^verbatim>\<open>x\<close>: the default of \<^verbatim>\<open>a_b\<close>, the
  last of the sources of the claim and the only one here, is not used.
\<close>

theorem shared_destination_default_lost:
  "parse_arguments example_spec
     \<lparr>environ = Map.empty,
      files = [''action.yaml'' \<mapsto>
                 [(''a-b'', [(''default'', VStr ''x'')]), (''a_b'', [(''default'', VStr ''y'')])]],
      argv = []\<rparr>
   = Inr ([(''a_b'', VStr ''x'')], False, [])"
  by (simp add: example_spec_def run_defs)

text \<open>
  The keys of the namespace are the destinations of the inputs, so the condition
  \<open>parse_arguments\<close> returns is decided by the manifest alone: it is true exactly when a
  required input has a name that is the destination of no input.
\<close>

lemma namespace_keys:
  assumes "parse_arguments spec proc = Inr (args, missing_args, logged)"
    and "files proc (filename spec) = Some y"
  shows "set (map fst args) = (\<lambda>(n, d). option_dest (''--'' @ n)) ` set y"
proof -
  from assms(1) obtain arguments parser where
    bp: "build_parser spec proc = Inr (arguments, parser)" and
    pa: "parse_args parser (argv proc) = Inr args"
    by (auto simp: parse_arguments_def Let_def split: sum.splits prod.splits)
  note b = build_parser_Inr [OF bp assms(2)]
  have nk: "fst ` set (namespace_defaults parser []) = dest ` set parser"
    using namespace_defaults_keys [of parser "[]"] by simp
  from pa have "consume (classify parser (argv proc)) (namespace_defaults parser []) False = Inr args"
    by (simp add: parse_args_def Let_def split: if_splits)
  from consume_keys [OF this]
  have "fst ` set args =
      fst ` set (namespace_defaults parser []) \<union> fst ` set (stored (classify parser (argv proc)))"
    by simp
  moreover have "fst ` set (stored (classify parser (argv proc))) \<subseteq> dest ` set parser"
    using stored_dest [of "classify parser (argv proc)"] classify_store [of parser "argv proc"]
    by blast
  ultimately have "set (map fst args) = dest ` set parser"
    using nk by auto
  moreover have "dest ` set parser = (\<lambda>(n, d). option_dest (''--'' @ n)) ` set y"
  proof (cases y)
    case Nil
    with b show ?thesis by (simp add: read_inputs_def)
  next
    case (Cons x xs)
    with b(1) have "arguments \<noteq> []" by (simp add: read_inputs_def)
    from add_arguments_prefix [OF b(2) this] obtain prefix where "env_prefix spec = Some prefix" ..
    from add_arguments_Inr [OF b(2) this]
    have "dest ` set parser = (\<lambda>a. option_dest (''--'' @ arg_name a)) ` set arguments"
      by (simp add: mk_action_def image_image)
    also have "\<dots> = (\<lambda>n. option_dest (''--'' @ n)) ` set (map arg_name arguments)"
      by (simp add: image_image)
    also have "\<dots> = (\<lambda>n. option_dest (''--'' @ n)) ` set (map fst y)"
      by (simp only: b(1) read_inputs_names)
    also have "\<dots> = (\<lambda>(n, d). option_dest (''--'' @ n)) ` set y"
      by (simp add: image_image case_prod_beta)
    finally show ?thesis .
  qed
  ultimately show ?thesis by simp
qed

lemma missing_flag_from_manifest:
  assumes "parse_arguments spec proc = Inr (args, missing_args, logged)"
    and "files proc (filename spec) = Some y"
  shows "missing_args =
     (\<exists>(n, d) \<in> set y. truthy (get d ''required'' (VBool False)) \<and>
        n \<notin> (\<lambda>(n', d'). option_dest (''--'' @ n')) ` set y)"
proof -
  from assms(1) obtain arguments parser where
    bp: "build_parser spec proc = Inr (arguments, parser)" and
    pa: "parse_args parser (argv proc) = Inr args" and
    m: "missing_args = (missing_required arguments args \<noteq> [])"
    by (auto simp: parse_arguments_def Let_def split: sum.splits prod.splits)
  note b = build_parser_Inr [OF bp assms(2)]
  note k = namespace_keys [OF assms]
  have "(missing_required arguments args \<noteq> []) =
      (\<exists>x \<in> set y. truthy (get (snd x) ''required'' (VBool False)) \<and> fst x \<notin> set (map fst args))"
    unfolding missing_required_def b(1)
    by (simp add: read_inputs_def filter_empty_conv case_prod_beta)
  then show ?thesis
    unfolding m k by (simp add: case_prod_beta)
qed

text \<open>
  Claim C2 does not hold of the code. \<open>parse_args\<close> gives every option a key in the
  namespace, with the value \<^verbatim>\<open>None\<close> when nothing resolved it, so the test
  \<^verbatim>\<open>arg_spec.name not in args\<close> fails for a required parameter without a value: nothing is
  logged and the condition returned is false.
\<close>

theorem missing_required_not_reported:
  "parse_arguments example_spec
     \<lparr>environ = Map.empty, files = [''action.yaml'' \<mapsto> [(''user'', [(''required'', VBool True)])]],
      argv = []\<rparr>
   = Inr ([(''user'', VNone)], False, [])"
  by (simp add: example_spec_def run_defs)

section \<open>\<^verbatim>\<open>action_main\<close>\<close>

lemma printed_append: "printed (s @ t) = printed s @ printed t"
  by (induction s rule: printed.induct) simp_all

lemma do_action_calls_append: "do_action_calls (s @ t) = do_action_calls s @ do_action_calls t"
  by (induction s rule: do_action_calls.induct) simp_all

lemma printed_LogError: "printed (map (\<lambda>n. LogError (f n)) ns) = []"
  by (induction ns) simp_all

lemma do_action_calls_LogError: "do_action_calls (map (\<lambda>n. LogError (f n)) ns) = []"
  by (induction ns) simp_all

lemma printed_log_arguments: "printed (log_arguments args) = []"
proof -
  have "printed (map (\<lambda>(arg, val).
            if arg = ''token'' then LogInfo (''  '' @ arg @ ''=********:'')
            else LogInfo (''  '' @ arg @ ''='' @ str val @ '':'')) l) = []" for l
    by (induction l) (auto split: prod.splits)
  then show ?thesis by (simp add: log_arguments_def)
qed

lemma do_action_calls_log_arguments: "do_action_calls (log_arguments args) = []"
proof -
  have "do_action_calls (map (\<lambda>(arg, val).
            if arg = ''token'' then LogInfo (''  '' @ arg @ ''=********:'')
            else LogInfo (''  '' @ arg @ ''='' @ str val @ '':'')) l) = []" for l
    by (induction l) (auto split: prod.splits)
  then show ?thesis by (simp add: log_arguments_def)
qed

lemma printed_Print: "printed (map (\<lambda>x. Print (f x)) l) = map f l"
  by (induction l) simp_all

lemma do_action_calls_Print: "do_action_calls (map (\<lambda>x. Print (f x)) l) = []"
  by (induction l) simp_all

lemma printed_print_outputs:
  "printed (print_outputs outputs) =
     map (\<lambda>(n, result). ''::set-output name='' @ n @ ''::'' @ str result) outputs
     @ map (\<lambda>(n, result). ''set-output name='' @ n @ ''::'' @ str result) outputs"
proof -
  have 1: "(\<lambda>(n, result). Print (''::set-output name='' @ n @ ''::'' @ str result))
        = (\<lambda>x. Print ((\<lambda>(n, result). ''::set-output name='' @ n @ ''::'' @ str result) x))"
    by (simp add: fun_eq_iff)
  have 2: "(\<lambda>(n, result). Print (''set-output name='' @ n @ ''::'' @ str result))
        = (\<lambda>x. Print ((\<lambda>(n, result). ''set-output name='' @ n @ ''::'' @ str result) x))"
    by (simp add: fun_eq_iff)
  show ?thesis
    unfolding print_outputs_def printed_append
    by (simp only: 1 2 printed_Print)
qed

lemma do_action_calls_print_outputs: "do_action_calls (print_outputs outputs) = []"
proof -
  have 1: "(\<lambda>(n, result). Print (''::set-output name='' @ n @ ''::'' @ str result))
        = (\<lambda>x. Print ((\<lambda>(n, result). ''::set-output name='' @ n @ ''::'' @ str result) x))"
    by (simp add: fun_eq_iff)
  have 2: "(\<lambda>(n, result). Print (''set-output name='' @ n @ ''::'' @ str result))
        = (\<lambda>x. Print ((\<lambda>(n, result). ''set-output name='' @ n @ ''::'' @ str result) x))"
    by (simp add: fun_eq_iff)
  show ?thesis
    unfolding print_outputs_def do_action_calls_append
    by (simp only: 1 2 do_action_calls_Print append_Nil)
qed

lemma parse_arguments_logged:
  assumes "parse_arguments spec proc = Inr (parsed, missing_args, logged)"
  shows "printed logged = []" and "do_action_calls logged = []"
    and "\<exists>ns. logged = map (\<lambda>n. LogError (''Missing required argument '' @ n)) ns
            \<and> missing_args = (ns \<noteq> [])"
  using assms
  by (auto simp: parse_arguments_def Let_def printed_LogError do_action_calls_LogError
      split: sum.splits prod.splits)

lemma action_main_Inr:
  assumes "parse_arguments spec proc = Inr (parsed, missing_args, logged)"
  shows "action_main spec proc =
     (let args = (case set_defaults spec of None \<Rightarrow> parsed | Some g \<Rightarrow> g parsed);
          t = logged @ (case set_defaults spec of None \<Rightarrow> [] | Some g \<Rightarrow> [Call_set_defaults parsed])
              @ [LogInfo (str_opt (long_name spec) @ '', with arguments:'')] @ log_arguments args
      in if missing_args then (Exited 1, t @ [LogError ''Some required arguments are missing!''])
         else (case do_action spec of
                 Some f \<Rightarrow> (Returned (f args), t @ [Call_do_action args] @ print_outputs (f args))
               | None \<Rightarrow> (Returned [], t)))"
  using assms by (auto simp: action_main_def Let_def split: option.splits)

lemma add_arguments_cong:
  "env_prefix s' = env_prefix s \<Longrightarrow> add_arguments s' e as p = add_arguments s e as p"
  by (induction as arbitrary: p) (auto split: option.splits sum.splits)

lemma parse_arguments_cong:
  "env_prefix s' = env_prefix s \<Longrightarrow> filename s' = filename s \<Longrightarrow>
     parse_arguments s' proc = parse_arguments s proc"
proof -
  assume h: "env_prefix s' = env_prefix s" "filename s' = filename s"
  have "add_arguments s' e as p = add_arguments s e as p" for e as p
    using h(1) by (rule add_arguments_cong)
  with h(2) show ?thesis
    by (simp add: parse_arguments_def build_parser_def Let_def cong: option.case_cong)
qed

lemma log_arguments_set:
  "set (log_arguments args) =
     (\<lambda>(k, v). LogInfo (''  '' @ k @ (if k = ''token'' then ''=********:'' else ''='' @ str v @ '':'')))
       ` set args"
  by (auto simp: log_arguments_def image_iff split: prod.splits if_splits) force+

text \<open>
  Claim C5. When no required argument is reported missing and the action has a
  \<open>do_action\<close> function, \<open>action_main\<close> calls it once, on the arguments (after
  \<open>set_defaults\<close>), and prints, for the mapping it returns, first one line
  \<^verbatim>\<open>::set-output name=<name>::<result>\<close> per pair, in the order of the mapping, then one
  line \<^verbatim>\<open>set-output name=<name>::<result>\<close> per pair, and nothing else: two lines for
  every pair. It returns the mapping as it is. A line is what one call of \<^verbatim>\<open>print\<close>
  writes.
\<close>

theorem action_main_emits_outputs:
  assumes "parse_arguments spec proc = Inr (parsed, False, logged)"
    and "do_action spec = Some f"
    and "args = (case set_defaults spec of None \<Rightarrow> parsed | Some g \<Rightarrow> g parsed)"
    and "outputs = f args"
  shows "fst (action_main spec proc) = Returned outputs
    \<and> printed (snd (action_main spec proc)) =
        map (\<lambda>(n, result). ''::set-output name='' @ n @ ''::'' @ str result) outputs
        @ map (\<lambda>(n, result). ''set-output name='' @ n @ ''::'' @ str result) outputs
    \<and> length (printed (snd (action_main spec proc))) = 2 * length outputs
    \<and> do_action_calls (snd (action_main spec proc)) = [args]"
proof -
  note l = parse_arguments_logged [OF assms(1)]
  have am: "action_main spec proc =
      (Returned outputs,
       (logged @ (case set_defaults spec of None \<Rightarrow> [] | Some g \<Rightarrow> [Call_set_defaults parsed])
         @ [LogInfo (str_opt (long_name spec) @ '', with arguments:'')] @ log_arguments args)
       @ [Call_do_action args] @ print_outputs outputs)"
    using action_main_Inr [OF assms(1)] assms(2-4) by (simp add: Let_def)
  have p: "printed (snd (action_main spec proc)) = printed (print_outputs outputs)"
    unfolding am snd_conv printed_append
    by (simp add: l printed_log_arguments split: option.splits)
  have c: "do_action_calls (snd (action_main spec proc)) = [args]"
    unfolding am snd_conv do_action_calls_append
    by (simp add: l do_action_calls_log_arguments do_action_calls_print_outputs split: option.splits)
  from am p c show ?thesis by (simp add: printed_print_outputs)
qed

theorem action_main_emits_outputs_witness:
  "fst (action_main example_spec example_process) = Returned [(''foo'', VStr ''bar'')]
   \<and> printed (snd (action_main example_spec example_process)) =
       [''::set-output name=foo::bar'', ''set-output name=foo::bar'']
   \<and> do_action_calls (snd (action_main example_spec example_process)) =
       [[(''user'', VStr ''bob''), (''token'', VStr ''secret'')]]"
proof -
  have a: "[(''user'', VStr ''bob''), (''token'', VStr ''secret'')] =
      (case set_defaults example_spec of
         None \<Rightarrow> [(''user'', VStr ''bob''), (''token'', VStr ''secret'')]
       | Some g \<Rightarrow> g [(''user'', VStr ''bob''), (''token'', VStr ''secret'')])"
    by (simp add: example_spec_fields)
  have b: "[(''foo'', VStr ''bar'')] =
      (\<lambda>args. [(''foo'', VStr ''bar'')]) [(''user'', VStr ''bob''), (''token'', VStr ''secret'')]"
    by simp
  from action_main_emits_outputs [OF example_parse example_spec_fields(5) a b]
  show ?thesis by simp
qed

text \<open>
  Where \<open>parse_arguments\<close> returns the condition as false and the \<open>ActionSpec\<close> has no
  \<open>do_action\<close> function, \<open>action_main\<close> prints no line and returns the empty mapping.
\<close>

lemma action_main_without_do_action:
  assumes "parse_arguments spec proc = Inr (parsed, False, logged)"
    and "do_action spec = None"
  shows "fst (action_main spec proc) = Returned []
    \<and> printed (snd (action_main spec proc)) = []"
proof -
  note l = parse_arguments_logged [OF assms(1)]
  have am: "action_main spec proc =
      (Returned [],
       logged @ (case set_defaults spec of None \<Rightarrow> [] | Some g \<Rightarrow> [Call_set_defaults parsed])
         @ [LogInfo (str_opt (long_name spec) @ '', with arguments:'')]
         @ log_arguments (case set_defaults spec of None \<Rightarrow> parsed | Some g \<Rightarrow> g parsed))"
    using action_main_Inr [OF assms(1)] assms(2) by (simp add: Let_def)
  have "printed (snd (action_main spec proc)) = []"
    unfolding am snd_conv printed_append
    by (simp add: l printed_log_arguments split: option.splits)
  with am show ?thesis by simp
qed

text \<open>
  Claim C10 does not hold of the code. The condition \<open>parse_arguments\<close> returns is true for
  a required input whose name is not a destination, also when it has a value. With the
  required input \<^verbatim>\<open>dry-run\<close>, given on the command line as \<^verbatim>\<open>--dry-run 1\<close>, no required
  argument is missing, and yet \<open>action_main\<close> without a \<open>do_action\<close> function leaves the
  process with status 1 instead of returning the empty mapping.
\<close>

theorem no_do_action_exits:
  "action_main (example_spec\<lparr>do_action := None\<rparr>)
     \<lparr>environ = Map.empty,
      files = [''action.yaml'' \<mapsto> [(''dry-run'', [(''required'', VBool True)])]],
      argv = [''--dry-run'', ''1'']\<rparr>
   = (Exited 1,
      [LogError ''Missing required argument dry-run'',
       Call_set_defaults [(''dry_run'', VStr ''1'')],
       LogInfo ''foo bar, with arguments:'',
       LogInfo ''  dry_run=1:'',
       LogError ''Some required arguments are missing!''])"
  by (simp add: action_main_def example_spec_def log_arguments_def str_opt_def run_defs
      argparse_defs)

text \<open>
  Claim C7. When a required argument is found missing by the check of \<open>parse_arguments\<close>
  (the parser was built and the command line read without an error), \<open>parse_arguments\<close>
  does not leave the process: it returns the namespace with the condition true, having
  logged one error for each such argument. Then \<open>action_main\<close> still applies
  \<open>set_defaults\<close>, logs the heading and one line for every argument, logs the final error
  and leaves the process with status 1. It prints nothing, never calls \<open>do_action\<close>, and
  the run is the same whatever \<open>do_action\<close> is.
\<close>

theorem action_main_missing_arguments:
  assumes "build_parser spec proc = Inr (arguments, parser)"
    and "parse_args parser (argv proc) = Inr parsed"
    and "missing_required arguments parsed \<noteq> []"
    and "logged = map (\<lambda>n. LogError (''Missing required argument '' @ n))
                    (missing_required arguments parsed)"
    and "args = (case set_defaults spec of None \<Rightarrow> parsed | Some g \<Rightarrow> g parsed)"
  shows "parse_arguments spec proc = Inr (parsed, True, logged)
    \<and> action_main spec proc =
      (Exited 1,
       logged @ (case set_defaults spec of None \<Rightarrow> [] | Some g \<Rightarrow> [Call_set_defaults parsed])
         @ [LogInfo (str_opt (long_name spec) @ '', with arguments:'')] @ log_arguments args
         @ [LogError ''Some required arguments are missing!''])
    \<and> (\<forall>(k, v) \<in> set args.
          LogInfo (''  '' @ k @ (if k = ''token'' then ''=********:'' else ''='' @ str v @ '':''))
            \<in> set (snd (action_main spec proc)))
    \<and> do_action_calls (snd (action_main spec proc)) = []
    \<and> printed (snd (action_main spec proc)) = []
    \<and> action_main (spec\<lparr>do_action := h\<rparr>) proc = action_main spec proc"
proof -
  have pa: "parse_arguments spec proc = Inr (parsed, True, logged)"
    using assms(1-4) by (simp add: parse_arguments_def Let_def)
  note l = parse_arguments_logged [OF pa]
  let ?t = "logged @ (case set_defaults spec of None \<Rightarrow> [] | Some g \<Rightarrow> [Call_set_defaults parsed])
         @ [LogInfo (str_opt (long_name spec) @ '', with arguments:'')] @ log_arguments args
         @ [LogError ''Some required arguments are missing!'']"
  have am: "action_main spec proc = (Exited 1, ?t)"
    using action_main_Inr [OF pa] assms(5) by (simp add: Let_def)
  have lines: "\<forall>(k, v) \<in> set args.
      LogInfo (''  '' @ k @ (if k = ''token'' then ''=********:'' else ''='' @ str v @ '':''))
        \<in> set (snd (action_main spec proc))"
  proof -
    have "LogInfo (''  '' @ k @ (if k = ''token'' then ''=********:'' else ''='' @ str v @ '':''))
        \<in> set (log_arguments args)" if "(k, v) \<in> set args" for k v
      unfolding log_arguments_set using that by (rule_tac x = "(k, v)" in image_eqI) simp_all
    then show ?thesis unfolding am snd_conv set_append by blast
  qed
  have c: "do_action_calls (snd (action_main spec proc)) = []"
    unfolding am snd_conv do_action_calls_append
    by (simp add: l do_action_calls_log_arguments split: option.splits)
  have p: "printed (snd (action_main spec proc)) = []"
    unfolding am snd_conv printed_append
    by (simp add: l printed_log_arguments split: option.splits)
  have "parse_arguments (spec\<lparr>do_action := h\<rparr>) proc = Inr (parsed, True, logged)"
    using pa parse_arguments_cong [of "spec\<lparr>do_action := h\<rparr>" spec proc] by simp
  from action_main_Inr [OF this] assms(5)
  have "action_main (spec\<lparr>do_action := h\<rparr>) proc = (Exited 1, ?t)"
    by (simp add: Let_def)
  with pa am lines c p show ?thesis by simp
qed

theorem action_main_missing_arguments_witness:
  "parse_arguments example_spec missing_process =
     Inr ([(''dry_run'', VNone)], True, [LogError ''Missing required argument dry-run''])
   \<and> action_main example_spec missing_process =
     (Exited 1,
      [LogError ''Missing required argument dry-run'',
       Call_set_defaults [(''dry_run'', VNone)],
       LogInfo ''foo bar, with arguments:'',
       LogInfo ''  dry_run=None:'',
       LogError ''Some required arguments are missing!''])
   \<and> action_main (example_spec\<lparr>do_action := None\<rparr>) missing_process
       = action_main example_spec missing_process"
proof -
  have b: "build_parser example_spec missing_process =
      Inr ([ArgSpec ''dry-run'' VNone VNone (VBool True)], [Action ''--dry-run'' ''dry_run'' VNone])"
    by (simp add: example_spec_def missing_process_def run_defs)
  have p: "parse_args [Action ''--dry-run'' ''dry_run'' VNone] (argv missing_process) =
      Inr [(''dry_run'', VNone)]"
    by (simp add: missing_process_def parse_args_def)
  have m: "missing_required [ArgSpec ''dry-run'' VNone VNone (VBool True)] [(''dry_run'', VNone)] \<noteq> []"
    by (simp add: missing_required_def)
  have lg: "[LogError ''Missing required argument dry-run''] =
      map (\<lambda>n. LogError (''Missing required argument '' @ n))
        (missing_required [ArgSpec ''dry-run'' VNone VNone (VBool True)] [(''dry_run'', VNone)])"
    by (simp add: missing_required_def)
  have a: "[(''dry_run'', VNone)] =
      (case set_defaults example_spec of
         None \<Rightarrow> [(''dry_run'', VNone)]
       | Some g \<Rightarrow> g [(''dry_run'', VNone)])"
    by (simp add: example_spec_fields)
  have l: "log_arguments [(''dry_run'', VNone)] = [LogInfo ''  dry_run=None:'']"
    by (simp add: log_arguments_def)
  from action_main_missing_arguments [OF b p m lg a, of None] l
  show ?thesis by (simp add: example_spec_fields str_opt_def)
qed

lemma insort_key_mask:
  "map mask (insort_key fst x xs) = insort_key fst (mask x) (map mask xs)"
  by (induction xs) (simp_all add: mask_def)

lemma sort_key_mask: "map mask (sort_key fst xs) = sort_key fst (map mask xs)"
  by (induction xs) (simp_all add: insort_key_mask)

lemma log_arguments_mask: "log_arguments (map mask args) = log_arguments args"
proof -
  have "sort_key fst (map mask args) = map mask (sort_key fst args)"
    by (simp add: sort_key_mask)
  then show ?thesis
    by (simp add: log_arguments_def mask_def comp_def case_prod_beta)
qed

lemma mask_set_eq:
  assumes "distinct (map fst a1)" and "distinct (map fst a2)"
    and "fst ` set a1 = fst ` set a2"
    and "\<forall>k. k \<noteq> ''token'' \<longrightarrow> map_of a1 k = map_of a2 k"
  shows "mask ` set a1 \<subseteq> mask ` set a2"
proof
  fix x assume "x \<in> mask ` set a1"
  then obtain k v where kv: "(k, v) \<in> set a1" and x: "x = mask (k, v)" by auto
  show "x \<in> mask ` set a2"
  proof (cases "k = ''token''")
    case True
    from kv assms(3) obtain v' where "(k, v') \<in> set a2" by force
    moreover have "mask (k, v') = x" using True x by (simp add: mask_def)
    ultimately show ?thesis by force
  next
    case False
    from kv assms(1) have "map_of a1 k = Some v" by simp
    with False assms(4) have "map_of a2 k = Some v" by simp
    then have "(k, v) \<in> set a2" by (rule map_of_SomeD)
    with x show ?thesis by force
  qed
qed

lemma sort_key_fst_unique:
  assumes "distinct (map fst xs)" and "distinct (map fst ys)" and "set xs = set ys"
  shows "sort_key fst xs = sort_key fst ys"
proof (rule map_sorted_distinct_set_unique [where f = fst])
  from assms(1) have "inj_on fst (set xs)" by (simp add: distinct_map)
  with assms(3) show "inj_on fst (set (sort_key fst xs) \<union> set (sort_key fst ys))" by simp
  show "sorted (map fst (sort_key fst xs))" "sorted (map fst (sort_key fst ys))" by simp_all
  from assms(1) show "distinct (map fst (sort_key fst xs))"
    by (simp add: distinct_map)
  from assms(2) show "distinct (map fst (sort_key fst ys))"
    by (simp add: distinct_map)
  from assms(3) show "set (sort_key fst xs) = set (sort_key fst ys)" by simp
qed

text \<open>
  Claim C6. The loop of \<open>action_main\<close> that logs the arguments masks the value of the
  argument named \<^verbatim>\<open>token\<close>: two argument mappings with the same keys that agree on every
  key but \<^verbatim>\<open>token\<close> are logged identically.
\<close>

theorem log_arguments_masks_token:
  assumes "distinct (map fst a1)" and "distinct (map fst a2)"
    and "fst ` set a1 = fst ` set a2"
    and "\<forall>k. k \<noteq> ''token'' \<longrightarrow> map_of a1 k = map_of a2 k"
  shows "log_arguments a1 = log_arguments a2"
proof -
  have "mask ` set a1 \<subseteq> mask ` set a2"
    using mask_set_eq [OF assms] .
  moreover have "mask ` set a2 \<subseteq> mask ` set a1"
    using mask_set_eq [OF assms(2) assms(1)] assms(3,4) by simp
  ultimately have s: "set (map mask a1) = set (map mask a2)" by auto
  have d: "distinct (map fst (map mask a1))" "distinct (map fst (map mask a2))"
    using assms(1,2) by (simp_all add: comp_def mask_def)
  have "sort_key fst (map mask a1) = sort_key fst (map mask a2)"
    using sort_key_fst_unique [OF d s] .
  then have "log_arguments (map mask a1) = log_arguments (map mask a2)"
    by (simp add: log_arguments_def)
  then show ?thesis by (simp add: log_arguments_mask)
qed

theorem log_arguments_masks_token_witness:
  "log_arguments [(''user'', VStr ''bob''), (''token'', VStr ''secret'')] =
     log_arguments [(''token'', VNone), (''user'', VStr ''bob'')]
   \<and> log_arguments [(''token'', VNone), (''user'', VStr ''bob'')] =
     [LogInfo ''  token=********:'', LogInfo ''  user=bob:'']"
proof -
  have 1: "distinct (map fst [(''user'', VStr ''bob''), (''token'', VStr ''secret'')])"
    "distinct (map fst [(''token'', VNone), (''user'', VStr ''bob'')])"
    by simp_all
  have 2: "fst ` set [(''user'', VStr ''bob''), (''token'', VStr ''secret'')] =
      fst ` set [(''token'', VNone), (''user'', VStr ''bob'')]"
    by auto
  have 3: "\<forall>k. k \<noteq> ''token'' \<longrightarrow>
      map_of [(''user'', VStr ''bob''), (''token'', VStr ''secret'')] k =
      map_of [(''token'', VNone), (''user'', VStr ''bob'')] k"
    by simp
  have 4: "log_arguments [(''token'', VNone), (''user'', VStr ''bob'')] =
     [LogInfo ''  token=********:'', LogInfo ''  user=bob:'']"
    by (simp add: log_arguments_def)
  from log_arguments_masks_token [OF 1 2 3] 4 show ?thesis by simp
qed

end
